theory Spec2Isabelle
  imports Complex_Main
begin

section \<open>Face-recognition attendance system (main.py)\<close>

text \<open>
  A shallow embedding of the class \<open>AttendanceSystem\<close> of \<^verbatim>\<open>src/main.py\<close>.
  Python strings are \<open>string\<close>; the attributes \<open>known_faces\<close> and \<open>known_names\<close>
  are two parallel lists, as in the source; every \<open>print\<close> is a message appended to
  a log; exceptions are values of \<open>py_error\<close>.
\<close>

subsection \<open>Errors and console output\<close>

text \<open>
  The exceptions the code can meet, and one constructor per \<open>print\<close> statement of the
  class (the arguments are the values interpolated into the line).
\<close>

datatype py_error =
    ValueError string
  | FileNotFoundError
  | NotADirectoryError
  | IndexError

datatype message =
    LoadingKnownFaces
  | ExpectedFilenameFormat
  | Loaded string
  | NoFaceDetectedIn string
  | ErrorLoading string string
  | TotalFacesLoaded nat
  | NoFacesDetected
  | MultipleFacesWarning nat
  | FaceRecognized string string real
  | FaceNotRecognized
  | AlreadyMarked string string
  | AttendanceMarked string string string

subsection \<open>Labels: lines 131-139 of \<open>recognize_face\<close>\<close>

text \<open>
  \<^verbatim>\<open>
  if '_' in full_name:
      parts = full_name.split('_', 1)
      name = parts[0]
      roll_no = parts[1]
  else:
      name = full_name
      roll_no = "N/A"
  \<close>
  \<open>split('_', 1)\<close> cuts at the first underscore only.
\<close>

definition split_first :: "char \<Rightarrow> string \<Rightarrow> string \<times> string" where
  "split_first sep s = (takeWhile (\<lambda>c. c \<noteq> sep) s, tl (dropWhile (\<lambda>c. c \<noteq> sep) s))"

definition parse_full_name :: "string \<Rightarrow> string \<times> string" where
  "parse_full_name full_name =
     (if CHR ''_'' \<in> set full_name
      then (let parts = split_first (CHR ''_'') full_name in (fst parts, snd parts))
      else (full_name, ''N/A''))"

subsection \<open>The object and the gallery load: \<open>__init__\<close> and \<open>load_known_faces\<close>\<close>

record 'e attendance_system =
  known_faces_dir :: string
  attendance_file :: string
  known_faces :: "'e list"
  known_names :: "string list"

text \<open>
  What the load leaves behind: the object, the console, and the file paths handed to
  \<open>face_recognition.load_image_file\<close>, in call order.
\<close>

record 'e loading =
  self :: "'e attendance_system"
  console :: "message list"
  encoded :: "string list"

text \<open>What \<open>os.path.exists\<close> and \<open>os.listdir\<close> find at a path.\<close>

datatype dir_entry = Absent | RegularFile | Directory "string list"

text \<open>
  \<open>str.lower\<close> on the ASCII letters. No character outside ASCII lowercases to one of the
  characters of the three extensions, so the test of line 32 is decided by this part of
  \<open>lower\<close> alone.
\<close>

definition lower_char :: "char \<Rightarrow> char" where
  "lower_char c =
     (case map_of (zip ''ABCDEFGHIJKLMNOPQRSTUVWXYZ'' ''abcdefghijklmnopqrstuvwxyz'') c of
        Some l \<Rightarrow> l
      | None \<Rightarrow> c)"

definition lower :: "string \<Rightarrow> string" where
  "lower s = map lower_char s"

definition endswith :: "string \<Rightarrow> string \<Rightarrow> bool" where
  "endswith s suf = (length suf \<le> length s \<and> drop (length s - length suf) s = suf)"

definition valid_extensions :: "string list" where
  "valid_extensions = [''.jpg'', ''.jpeg'', ''.png'']"

definition has_valid_extension :: "string \<Rightarrow> bool" where
  "has_valid_extension filename = list_ex (endswith (lower filename)) valid_extensions"

text \<open>\<open>os.path.join\<close> with two arguments and \<open>os.path.splitext\<close>, as \<open>posixpath\<close> has them.\<close>

definition path_join :: "string \<Rightarrow> string \<Rightarrow> string" where
  "path_join a b =
     (if take 1 b = ''/'' then b
      else if a = [] \<or> endswith a ''/'' then a @ b
      else a @ ''/'' @ b)"

definition rfind :: "char \<Rightarrow> string \<Rightarrow> int" where
  "rfind c s =
     (if c \<in> set s
      then int (length s) - 1 - int (length (takeWhile (\<lambda>x. x \<noteq> c) (rev s)))
      else - 1)"

definition splitext :: "string \<Rightarrow> string \<times> string" where
  "splitext p =
     (let sepIndex = rfind (CHR ''/'') p;
          dotIndex = rfind (CHR ''.'') p
      in if dotIndex > sepIndex \<and>
            list_ex (\<lambda>c. c \<noteq> CHR ''.'')
              (take (nat dotIndex - nat (sepIndex + 1)) (drop (nat (sepIndex + 1)) p))
         then (take (nat dotIndex) p, drop (nat dotIndex) p)
         else (p, []))"

text \<open>
  The body of the loop of lines 31-47 for one directory entry. \<open>load_and_encode\<close> stands
  for \<open>load_image_file\<close> followed by \<open>face_encodings\<close>: it returns the encodings found,
  or \<open>Inl\<close> the text of the exception either call raised.
\<close>

definition load_entry ::
  "(string \<Rightarrow> string + 'e list) \<Rightarrow> string \<Rightarrow> 'e loading \<Rightarrow> 'e loading" where
  "load_entry load_and_encode filename st =
     (if has_valid_extension filename then
        (let filepath = path_join (known_faces_dir (self st)) filename;
             st1 = st\<lparr>encoded := encoded st @ [filepath]\<rparr>
         in case load_and_encode filepath of
              Inl e \<Rightarrow> st1\<lparr>console := console st1 @ [ErrorLoading filename e]\<rparr>
            | Inr encodings \<Rightarrow>
                if length encodings > 0 then
                  (let name_part = fst (splitext filename)
                   in st1\<lparr>self := (self st1)
                            \<lparr>known_faces := known_faces (self st1) @ [encodings ! 0],
                             known_names := known_names (self st1) @ [name_part]\<rparr>,
                          console := console st1 @ [Loaded name_part]\<rparr>)
                else st1\<lparr>console := console st1 @ [NoFaceDetectedIn filename]\<rparr>)
      else st)"

definition load_known_faces ::
  "(string \<Rightarrow> string + 'e list) \<Rightarrow> (string \<Rightarrow> dir_entry) \<Rightarrow> 'e attendance_system
     \<Rightarrow> py_error + 'e loading" where
  "load_known_faces load_and_encode disk slf =
     (case disk (known_faces_dir slf) of
        Absent \<Rightarrow> Inl (ValueError (''Directory not found: '' @ known_faces_dir slf))
      | RegularFile \<Rightarrow> Inl NotADirectoryError
      | Directory listing \<Rightarrow>
          (let st = fold (load_entry load_and_encode) listing
                      \<lparr>self = slf, console = [LoadingKnownFaces, ExpectedFilenameFormat],
                       encoded = []\<rparr>
           in Inr (st\<lparr>console := console st @
                        [TotalFacesLoaded (length (known_faces (self st)))]\<rparr>)))"

definition init ::
  "(string \<Rightarrow> string + 'e list) \<Rightarrow> (string \<Rightarrow> dir_entry) \<Rightarrow> string \<Rightarrow> string
     \<Rightarrow> py_error + 'e loading" where
  "init load_and_encode disk dir file =
     load_known_faces load_and_encode disk
       \<lparr>known_faces_dir = dir, attendance_file = file, known_faces = [], known_names = []\<rparr>"

subsection \<open>Matching: \<open>recognize_face\<close>\<close>

text \<open>
  The library calls of lines 121-126. \<open>metric\<close> is the metric of the encoder (the norm of
  the difference of two encodings); distances are real numbers, so a not-a-number
  distance is outside the model. \<open>face_distance\<close> gives one distance per gallery row
  and the empty array for an empty gallery; \<open>compare_faces\<close> is
  \<open>face_distance(...) <= tolerance\<close> row by row; \<open>numpy.argmin\<close> raises on an empty
  array and returns the first index of the minimum otherwise.
\<close>

definition face_distance :: "('e \<Rightarrow> 'e \<Rightarrow> real) \<Rightarrow> 'e list \<Rightarrow> 'e \<Rightarrow> real list" where
  "face_distance metric face_encodings face_to_compare =
     (if length face_encodings = 0 then []
      else map (\<lambda>known. metric known face_to_compare) face_encodings)"

definition compare_faces ::
  "('e \<Rightarrow> 'e \<Rightarrow> real) \<Rightarrow> 'e list \<Rightarrow> 'e \<Rightarrow> real \<Rightarrow> bool list" where
  "compare_faces metric known_face_encodings face_encoding_to_check tolerance =
     map (\<lambda>d. d \<le> tolerance) (face_distance metric known_face_encodings face_encoding_to_check)"

fun argmin_scan :: "real \<Rightarrow> nat \<Rightarrow> nat \<Rightarrow> real list \<Rightarrow> nat" where
  "argmin_scan mv mi i [] = mi"
| "argmin_scan mv mi i (d # ds) =
     (if d < mv then argmin_scan d i (Suc i) ds else argmin_scan mv mi (Suc i) ds)"

definition argmin :: "real list \<Rightarrow> py_error + nat" where
  "argmin ds =
     (case ds of
        [] \<Rightarrow> Inl (ValueError ''attempt to get argmin of an empty sequence'')
      | d # rest \<Rightarrow> Inr (argmin_scan d 0 1 rest))"

text \<open>
  \<open>face_encodings\<close> stands for the colour conversion, \<open>face_locations\<close> and
  \<open>face_encodings\<close> of lines 105-109: the encodings of the faces found in the image.
  The result is the console output and the returned value (\<open>None\<close>, or the pair of
  name and roll number), or the exception raised.
\<close>

definition recognize_face ::
  "('img \<Rightarrow> 'e list) \<Rightarrow> ('e \<Rightarrow> 'e \<Rightarrow> real) \<Rightarrow> 'e attendance_system \<Rightarrow> 'img \<Rightarrow> real
     \<Rightarrow> message list \<times> (py_error + (string \<times> string) option)" where
  "recognize_face face_encodings metric slf captured_image tolerance =
     (let encs = face_encodings captured_image in
      if length encs = 0 then ([NoFacesDetected], Inr None)
      else
        (let warn = (if length encs > 1 then [MultipleFacesWarning (length encs)] else []);
             captured_encoding = encs ! 0;
             face_distances = face_distance metric (known_faces slf) captured_encoding;
             matches = compare_faces metric (known_faces slf) captured_encoding tolerance
         in if True \<in> set matches then
              (case argmin face_distances of
                 Inl e \<Rightarrow> (warn, Inl e)
               | Inr best_match_index \<Rightarrow>
                   if matches ! best_match_index then
                     (if best_match_index < length (known_names slf) then
                        (let confidence = 1 - face_distances ! best_match_index;
                             full_name = known_names slf ! best_match_index;
                             name = fst (parse_full_name full_name);
                             roll_no = snd (parse_full_name full_name)
                         in (warn @ [FaceRecognized name roll_no confidence],
                             Inr (Some (name, roll_no))))
                      else (warn, Inl IndexError))
                   else (warn @ [FaceNotRecognized], Inr None))
            else (warn @ [FaceNotRecognized], Inr None)))"

subsection \<open>The spreadsheet: \<open>pd.read_excel\<close> and \<open>DataFrame.to_excel\<close>\<close>

text \<open>
  A cell of a sheet, and a value of a data frame: a text, a number, or nothing (an empty
  cell, \<open>NaN\<close> in the frame). A row has the four columns of line 177. A file is a
  workbook of rows, or something that is no workbook.
\<close>

datatype cell = Text string | Number real | Blank

record row =
  Roll_No :: cell
  Name :: cell
  Date :: cell
  Time :: cell

datatype xlsx = Unreadable | Workbook "row list"

type_synonym sheets = "string \<rightharpoonup> xlsx"

text \<open>
  \<open>pd.read_excel\<close> is called with the file name alone (lines 152 and 174), so the reader
  infers the type of every column. What it reads as a missing value and what it reads
  as a number belongs to the library, not to the code under study: \<open>na_values\<close> is the
  list of texts read as missing, \<open>numeric\<close> gives the number a text is read as, if any.
  A text among \<open>na_values\<close> becomes \<open>Blank\<close>. Then a column in which every cell is
  blank, a number, or a text read as a number becomes a column of numbers; any other
  column keeps its texts. The reading of a column of the texts \<open>True\<close> and \<open>False\<close> as
  truth values is left out.
\<close>

record reader =
  na_values :: "string list"
  numeric :: "string \<Rightarrow> real option"

definition sanitize :: "reader \<Rightarrow> cell \<Rightarrow> cell" where
  "sanitize rd c =
     (case c of
        Text s \<Rightarrow> (if s \<in> set (na_values rd) then Blank else Text s)
      | Number n \<Rightarrow> Number n
      | Blank \<Rightarrow> Blank)"

definition is_numeric :: "reader \<Rightarrow> cell \<Rightarrow> bool" where
  "is_numeric rd c =
     (case c of
        Text s \<Rightarrow> (case numeric rd s of Some n \<Rightarrow> True | None \<Rightarrow> False)
      | Number n \<Rightarrow> True
      | Blank \<Rightarrow> True)"

definition to_numeric :: "reader \<Rightarrow> cell \<Rightarrow> cell" where
  "to_numeric rd c =
     (case c of
        Text s \<Rightarrow> (case numeric rd s of Some n \<Rightarrow> Number n | None \<Rightarrow> Text s)
      | Number n \<Rightarrow> Number n
      | Blank \<Rightarrow> Blank)"

definition infer_column :: "reader \<Rightarrow> cell list \<Rightarrow> cell list" where
  "infer_column rd col =
     (let cleaned = map (sanitize rd) col
      in if list_all (is_numeric rd) cleaned then map (to_numeric rd) cleaned else cleaned)"

definition infer_types :: "reader \<Rightarrow> row list \<Rightarrow> row list" where
  "infer_types rd rows =
     map (\<lambda>(r, n, d, t). \<lparr>Roll_No = r, Name = n, Date = d, Time = t\<rparr>)
       (zip (infer_column rd (map Roll_No rows))
         (zip (infer_column rd (map Name rows))
           (zip (infer_column rd (map Date rows))
                (infer_column rd (map Time rows)))))"

definition read_excel :: "reader \<Rightarrow> sheets \<Rightarrow> string \<Rightarrow> py_error + row list" where
  "read_excel rd files path =
     (case files path of
        None \<Rightarrow> Inl FileNotFoundError
      | Some Unreadable \<Rightarrow> Inl (ValueError ''Excel file format cannot be determined'')
      | Some (Workbook rows) \<Rightarrow> Inr (infer_types rd rows))"

text \<open>
  \<open>to_excel\<close> writes every value of the frame as the cell of its type and replaces the
  file.
\<close>

definition to_excel :: "row list \<Rightarrow> string \<Rightarrow> sheets \<Rightarrow> sheets" where
  "to_excel df path files = files(path \<mapsto> Workbook df)"

text \<open>
  The reader of the examples: the texts the library's documentation lists as missing
  values by default, and the texts made of decimal digits alone read as numbers (the
  library reads more texts as numbers: signs, fractions, exponents).
\<close>

definition digit_value :: "char \<Rightarrow> nat option" where
  "digit_value c = map_of (zip ''0123456789'' [0, 1, 2, 3, 4, 5, 6, 7, 8, 9]) c"

fun digits_value :: "nat \<Rightarrow> string \<Rightarrow> nat option" where
  "digits_value acc [] = Some acc"
| "digits_value acc (c # cs) =
     (case digit_value c of
        None \<Rightarrow> None
      | Some d \<Rightarrow> digits_value (10 * acc + d) cs)"

definition decimal :: "string \<Rightarrow> real option" where
  "decimal s = (if s = [] then None else map_option real (digits_value 0 s))"

definition default_na_values :: "string list" where
  "default_na_values =
     [[], ''#N/A'', ''#N/A N/A'', ''#NA'', ''-1.#IND'', ''-1.#QNAN'', ''-NaN'', ''-nan'',
      ''1.#IND'', ''1.#QNAN'', ''<NA>'', ''N/A'', ''NA'', ''NULL'', ''NaN'', ''None'', ''n/a'',
      ''nan'', ''null'']"

definition default_reader :: reader where
  "default_reader = \<lparr>na_values = default_na_values, numeric = decimal\<rparr>"

subsection \<open>The ledger: \<open>check_duplicate_attendance\<close> and \<open>mark_attendance\<close>\<close>

text \<open>
  Line 154 compares the cells of two columns with two Python strings: a cell equals a
  string only if it is a text, and that text.
\<close>

definition check_duplicate_attendance ::
  "reader \<Rightarrow> sheets \<Rightarrow> 'e attendance_system \<Rightarrow> string \<Rightarrow> string \<Rightarrow> py_error + bool" where
  "check_duplicate_attendance rd files slf roll_no date_str =
     (case read_excel rd files (attendance_file slf) of
        Inr df \<Rightarrow>
          (let duplicate = filter (\<lambda>r. Roll_No r = Text roll_no \<and> Date r = Text date_str) df
           in Inr (length duplicate > 0))
      | Inl FileNotFoundError \<Rightarrow> Inr False
      | Inl e \<Rightarrow> Inl e)"

text \<open>
  \<open>datetime.now()\<close> is an argument; \<open>strftime\<close> with \<open>%Y-%m-%d\<close> and \<open>%H:%M:%S\<close> fills
  the year to four digits and the other fields to two with zeros. (For a year below
  1000, which the clock never gives, the filling of \<open>%Y\<close> depends on the platform.)
\<close>

record datetime =
  year :: nat
  month :: nat
  day :: nat
  hour :: nat
  minute :: nat
  second :: nat

definition digit :: "nat \<Rightarrow> char" where
  "digit n = ''0123456789'' ! (n mod 10)"

fun digits :: "nat \<Rightarrow> string" where
  "digits n = (if n < 10 then [digit n] else digits (n div 10) @ [digit n])"

definition pad2 :: "nat \<Rightarrow> string" where
  "pad2 n = (if n < 10 then ''0'' @ digits n else digits n)"

definition pad4 :: "nat \<Rightarrow> string" where
  "pad4 n =
     (if n < 10 then ''000'' @ digits n
      else if n < 100 then ''00'' @ digits n
      else if n < 1000 then ''0'' @ digits n
      else digits n)"

definition strftime_date :: "datetime \<Rightarrow> string" where
  "strftime_date now = pad4 (year now) @ ''-'' @ pad2 (month now) @ ''-'' @ pad2 (day now)"

definition strftime_time :: "datetime \<Rightarrow> string" where
  "strftime_time now = pad2 (hour now) @ '':'' @ pad2 (minute now) @ '':'' @ pad2 (second now)"

text \<open>The result is the sheets afterwards, the console output and the returned value.\<close>

definition mark_attendance ::
  "reader \<Rightarrow> datetime \<Rightarrow> sheets \<Rightarrow> 'e attendance_system \<Rightarrow> string \<Rightarrow> string
     \<Rightarrow> sheets \<times> message list \<times> (py_error + bool)" where
  "mark_attendance rd now files slf student_name roll_no =
     (let current_date = strftime_date now;
          current_time = strftime_time now
      in case check_duplicate_attendance rd files slf roll_no current_date of
           Inl e \<Rightarrow> (files, [], Inl e)
         | Inr True \<Rightarrow> (files, [AlreadyMarked student_name roll_no], Inr False)
         | Inr False \<Rightarrow>
             (case (case read_excel rd files (attendance_file slf) of
                      Inr d \<Rightarrow> Inr d
                    | Inl FileNotFoundError \<Rightarrow> Inr []
                    | Inl e \<Rightarrow> Inl e) of
                Inl e \<Rightarrow> (files, [], Inl e)
              | Inr df \<Rightarrow>
                  (let new_record = [\<lparr>Roll_No = Text roll_no, Name = Text student_name,
                                       Date = Text current_date, Time = Text current_time\<rparr>];
                       df' = df @ new_record
                   in (to_excel df' (attendance_file slf) files,
                       [AttendanceMarked student_name roll_no current_time], Inr True))))"

section \<open>Properties of the matcher\<close>

subsection \<open>The first index of the minimum\<close>

lemma argmin_scan_first_min:
  assumes "mi < length pre" and "i = length pre" and "pre ! mi = mv"
    and "\<forall>j<length pre. mv \<le> pre ! j" and "\<forall>j<mi. mv < pre ! j"
  shows "argmin_scan mv mi i ds < length (pre @ ds) \<and>
         (\<forall>j<length (pre @ ds). (pre @ ds) ! argmin_scan mv mi i ds \<le> (pre @ ds) ! j) \<and>
         (\<forall>j<argmin_scan mv mi i ds. (pre @ ds) ! argmin_scan mv mi i ds < (pre @ ds) ! j)"
  using assms
proof (induction ds arbitrary: mv mi i pre)
  case Nil
  then show ?case by simp
next
  case (Cons d ds)
  show ?case
  proof (cases "d < mv")
    case True
    have a: "i < length (pre @ [d])" using Cons.prems by simp
    have b: "Suc i = length (pre @ [d])" using Cons.prems by simp
    have c: "(pre @ [d]) ! i = d" using Cons.prems by simp
    have d: "\<forall>j<length (pre @ [d]). d \<le> (pre @ [d]) ! j"
      using Cons.prems True by (auto simp: nth_append less_Suc_eq dest: order_less_imp_le)
    have e: "\<forall>j<i. d < (pre @ [d]) ! j"
      using Cons.prems True by (auto simp: nth_append)
    from Cons.IH[OF a b c d e] True show ?thesis by simp
  next
    case False
    have a: "mi < length (pre @ [d])" using Cons.prems by simp
    have b: "Suc i = length (pre @ [d])" using Cons.prems by simp
    have c: "(pre @ [d]) ! mi = mv" using Cons.prems by (simp add: nth_append)
    have d: "\<forall>j<length (pre @ [d]). mv \<le> (pre @ [d]) ! j"
      using Cons.prems False by (auto simp: nth_append less_Suc_eq)
    have e: "\<forall>j<mi. mv < (pre @ [d]) ! j"
      using Cons.prems by (auto simp: nth_append)
    from Cons.IH[OF a b c d e] False show ?thesis by simp
  qed
qed

lemma argmin_first_min:
  assumes "argmin ds = Inr k"
  shows "k < length ds \<and> (\<forall>j<length ds. ds ! k \<le> ds ! j) \<and> (\<forall>j<k. ds ! k < ds ! j)"
proof (cases ds)
  case Nil
  with assms show ?thesis by (simp add: argmin_def)
next
  case (Cons d rest)
  with assms have k: "k = argmin_scan d 0 1 rest" by (simp add: argmin_def)
  have "argmin_scan d 0 1 rest < length ([d] @ rest) \<and>
         (\<forall>j<length ([d] @ rest). ([d] @ rest) ! argmin_scan d 0 1 rest \<le> ([d] @ rest) ! j) \<and>
         (\<forall>j<argmin_scan d 0 1 rest. ([d] @ rest) ! argmin_scan d 0 1 rest < ([d] @ rest) ! j)"
    by (rule argmin_scan_first_min) simp_all
  with k Cons show ?thesis by simp
qed

lemma argmin_empty_iff: "(\<exists>e. argmin ds = Inl e) \<longleftrightarrow> ds = []"
  by (cases ds) (simp_all add: argmin_def)

lemma first_min_unique:
  fixes ds :: "real list"
  assumes "k < length ds" "\<forall>j<length ds. ds ! k \<le> ds ! j" "\<forall>j<k. ds ! k < ds ! j"
    and "k' < length ds" "\<forall>j<length ds. ds ! k' \<le> ds ! j" "\<forall>j<k'. ds ! k' < ds ! j"
  shows "k = k'"
proof (rule ccontr)
  assume "k \<noteq> k'"
  then consider "k < k'" | "k' < k" by linarith
  then show False
  proof cases
    case 1
    with assms(6) have "ds ! k' < ds ! k" by simp
    moreover from assms(2,4) have "ds ! k \<le> ds ! k'" by simp
    ultimately show False by simp
  next
    case 2
    with assms(3) have "ds ! k < ds ! k'" by simp
    moreover from assms(5,1) have "ds ! k' \<le> ds ! k" by simp
    ultimately show False by simp
  qed
qed

lemma argmin_Min:
  assumes "argmin ds = Inr k"
  shows "ds ! k = Min (set ds)"
proof -
  from argmin_first_min[OF assms] have k: "k < length ds" and le: "\<forall>j<length ds. ds ! k \<le> ds ! j"
    by simp_all
  have "ds ! k \<in> set ds" using k by simp
  moreover have "\<forall>x\<in>set ds. ds ! k \<le> x" using le by (auto simp: in_set_conv_nth)
  ultimately show ?thesis by (metis List.finite_set Min_eqI)
qed

lemma recognize_face_result:
  "snd (recognize_face face_encodings metric slf img tol) =
     (case face_encodings img of
        [] \<Rightarrow> Inr None
      | q # others \<Rightarrow>
          (case argmin (face_distance metric (known_faces slf) q) of
             Inl e \<Rightarrow> Inr None
           | Inr k \<Rightarrow>
               if face_distance metric (known_faces slf) q ! k \<le> tol
               then (if k < length (known_names slf)
                     then Inr (Some (parse_full_name (known_names slf ! k)))
                     else Inl IndexError)
               else Inr None))"
proof (cases "face_encodings img")
  case Nil
  then show ?thesis by (simp add: recognize_face_def)
next
  case (Cons q others)
  let ?ds = "face_distance metric (known_faces slf) q"
  show ?thesis
  proof (cases "argmin ?ds")
    case (Inl e)
    then have "?ds = []" using argmin_empty_iff by blast
    then show ?thesis using Cons Inl by (simp add: recognize_face_def compare_faces_def Let_def)
  next
    case (Inr k)
    note fm = argmin_first_min[OF Inr]
    have any: "True \<in> set (compare_faces metric (known_faces slf) q tol) \<longleftrightarrow> ?ds ! k \<le> tol"
    proof
      assume "True \<in> set (compare_faces metric (known_faces slf) q tol)"
      then obtain j where "j < length ?ds" "?ds ! j \<le> tol"
        by (auto simp: compare_faces_def in_set_conv_nth)
      with fm show "?ds ! k \<le> tol" by force
    next
      assume "?ds ! k \<le> tol"
      with fm show "True \<in> set (compare_faces metric (known_faces slf) q tol)"
        by (force simp: compare_faces_def in_set_conv_nth)
    qed
    have at: "compare_faces metric (known_faces slf) q tol ! k \<longleftrightarrow> ?ds ! k \<le> tol"
      using fm by (simp add: compare_faces_def)
    show ?thesis using Cons Inr any at
      by (simp add: recognize_face_def Let_def)
  qed
qed


text \<open>
  Claim C1. For a captured image whose first encoding is \<open>q\<close>, and a gallery whose two
  lists have the same length, \<open>recognize_face\<close> returns an identity if and only if the
  gallery is not empty and the least distance from \<open>q\<close> to a gallery encoding is at most
  the tolerance; it returns \<open>None\<close> if and only if the gallery is empty or that least
  distance is above the tolerance. The threshold is inclusive.
\<close>

theorem match_iff_min_within_tolerance:
  assumes "face_encodings img = q # others"
    and "length (known_faces slf) = length (known_names slf)"
  shows "((\<exists>ident. snd (recognize_face face_encodings metric slf img tol) = Inr (Some ident)) =
           (known_faces slf \<noteq> [] \<and>
            Min (set (map (\<lambda>known. metric known q) (known_faces slf))) \<le> tol)) \<and>
         ((snd (recognize_face face_encodings metric slf img tol) = Inr None) =
           (known_faces slf = [] \<or>
            tol < Min (set (map (\<lambda>known. metric known q) (known_faces slf)))))"
proof (cases "known_faces slf = []")
  case True
  then show ?thesis using assms(1)
    by (simp add: recognize_face_result face_distance_def argmin_def)
next
  case False
  let ?ds = "face_distance metric (known_faces slf) q"
  have ds: "?ds = map (\<lambda>known. metric known q) (known_faces slf)"
    using False by (simp add: face_distance_def)
  then have "?ds \<noteq> []" using False by simp
  then obtain k where k: "argmin ?ds = Inr k"
    using argmin_empty_iff[of ?ds] by (cases "argmin ?ds") auto
  define M where "M = Min (set (map (\<lambda>known. metric known q) (known_faces slf)))"
  have m: "?ds ! k = M" using argmin_Min[OF k] ds by (simp only: M_def)
  have "k < length ?ds" using argmin_first_min[OF k] by simp
  then have kn: "k < length (known_names slf)" using ds assms(2) by simp
  have r: "snd (recognize_face face_encodings metric slf img tol) =
             (if M \<le> tol then Inr (Some (parse_full_name (known_names slf ! k))) else Inr None)"
    using assms(1) k kn m by (simp add: recognize_face_result)
  have "((\<exists>ident. snd (recognize_face face_encodings metric slf img tol) = Inr (Some ident)) =
           (known_faces slf \<noteq> [] \<and> M \<le> tol)) \<and>
         ((snd (recognize_face face_encodings metric slf img tol) = Inr None) =
           (known_faces slf = [] \<or> tol < M))"
    using False by (simp add: r not_le)
  then show ?thesis by (simp only: M_def)
qed

theorem match_iff_min_within_tolerance_witness:
  "(\<exists>ident. snd (recognize_face (\<lambda>i. i) (\<lambda>a b. \<bar>a - b\<bar>)
       \<lparr>known_faces_dir = ''known_faces'', attendance_file = ''attendance.xlsx'',
        known_faces = [0::real], known_names = [''JohnDoe_101'']\<rparr> [6 / 10] (6 / 10))
     = Inr (Some ident)) \<and>
   snd (recognize_face (\<lambda>i. i) (\<lambda>a b. \<bar>a - b\<bar>)
       \<lparr>known_faces_dir = ''known_faces'', attendance_file = ''attendance.xlsx'',
        known_faces = [0::real], known_names = [''JohnDoe_101'']\<rparr> [61 / 100] (6 / 10))
     = Inr None \<and>
   snd (recognize_face (\<lambda>i. i) (\<lambda>a b. \<bar>a - b\<bar>)
       \<lparr>known_faces_dir = ''known_faces'', attendance_file = ''attendance.xlsx'',
        known_faces = [], known_names = []\<rparr> [0::real] 100)
     = Inr None"
proof -
  let ?g = "\<lparr>known_faces_dir = ''known_faces'', attendance_file = ''attendance.xlsx'',
        known_faces = [0::real], known_names = [''JohnDoe_101'']\<rparr>"
  let ?e = "\<lparr>known_faces_dir = ''known_faces'', attendance_file = ''attendance.xlsx'',
        known_faces = [] :: real list, known_names = []\<rparr>"
  have len: "length (known_faces ?g) = length (known_names ?g)" by simp
  have len0: "length (known_faces ?e) = length (known_names ?e)" by simp
  have q1: "(\<lambda>i::real list. i) [6 / 10] = (6 / 10) # []" by simp
  have q2: "(\<lambda>i::real list. i) [61 / 100] = (61 / 100) # []" by simp
  have q3: "(\<lambda>i::real list. i) [0] = 0 # []" by simp
  show ?thesis
    using match_iff_min_within_tolerance[where face_encodings = "\<lambda>i. i" and img = "[6 / 10]"
            and q = "6 / 10" and others = "[]" and slf = ?g
            and metric = "\<lambda>a b. \<bar>a - b\<bar>" and tol = "6 / 10", OF q1 len]
          match_iff_min_within_tolerance[where face_encodings = "\<lambda>i. i" and img = "[61 / 100]"
            and q = "61 / 100" and others = "[]" and slf = ?g
            and metric = "\<lambda>a b. \<bar>a - b\<bar>" and tol = "6 / 10", OF q2 len]
          match_iff_min_within_tolerance[where face_encodings = "\<lambda>i. i" and img = "[0]"
            and q = 0 and others = "[]" and slf = ?e
            and metric = "\<lambda>a b. \<bar>a - b\<bar>" and tol = 100, OF q3 len0]
    by simp
qed

text \<open>
  Claim C5. If \<open>recognize_face\<close> returns an identity at tolerance \<open>tol1\<close>, it returns the
  same identity at every larger tolerance \<open>tol2\<close>.
\<close>

theorem relaxed_tolerance_keeps_match:
  assumes "tol1 < tol2"
    and "snd (recognize_face face_encodings metric slf img tol1) = Inr (Some ident)"
  shows "snd (recognize_face face_encodings metric slf img tol2) = Inr (Some ident)"
  using assms
  by (auto simp: recognize_face_result split: list.splits sum.splits if_splits)

theorem relaxed_tolerance_keeps_match_witness:
  "(5 / 10 :: real) < 6 / 10 \<and>
   snd (recognize_face (\<lambda>i. i) (\<lambda>a b. \<bar>a - b\<bar>)
       \<lparr>known_faces_dir = ''known_faces'', attendance_file = ''attendance.xlsx'',
        known_faces = [0::real, 2], known_names = [''JohnDoe_101'', ''Ann_7'']\<rparr> [5 / 10] (5 / 10))
     = Inr (Some (''JohnDoe'', ''101'')) \<and>
   snd (recognize_face (\<lambda>i. i) (\<lambda>a b. \<bar>a - b\<bar>)
       \<lparr>known_faces_dir = ''known_faces'', attendance_file = ''attendance.xlsx'',
        known_faces = [0::real, 2], known_names = [''JohnDoe_101'', ''Ann_7'']\<rparr> [5 / 10] (6 / 10))
     = Inr (Some (''JohnDoe'', ''101''))"
proof -
  have lt: "(5 / 10 :: real) < 6 / 10" by simp
  have at: "snd (recognize_face (\<lambda>i. i) (\<lambda>a b. \<bar>a - b\<bar>)
       \<lparr>known_faces_dir = ''known_faces'', attendance_file = ''attendance.xlsx'',
        known_faces = [0::real, 2], known_names = [''JohnDoe_101'', ''Ann_7'']\<rparr> [5 / 10] (5 / 10))
     = Inr (Some (''JohnDoe'', ''101''))"
    by (simp add: recognize_face_def face_distance_def compare_faces_def argmin_def
        parse_full_name_def split_first_def)
  from lt at relaxed_tolerance_keeps_match[OF lt at] show ?thesis by simp
qed

text \<open>
  Claim C7. Let \<open>k\<close> be the earliest gallery position at the least distance from the
  query \<open>q\<close>: no entry is nearer, and every entry before \<open>k\<close> is strictly farther. If
  that distance is within the tolerance, \<open>recognize_face\<close> returns the identity of
  entry \<open>k\<close>, whatever entries after \<open>k\<close> share its distance.
\<close>

theorem earliest_minimum_is_selected:
  assumes "face_encodings img = q # others"
    and "length (known_faces slf) = length (known_names slf)"
    and "k < length (known_faces slf)"
    and "\<forall>j<length (known_faces slf). metric (known_faces slf ! k) q \<le> metric (known_faces slf ! j) q"
    and "\<forall>j<k. metric (known_faces slf ! k) q < metric (known_faces slf ! j) q"
    and "metric (known_faces slf ! k) q \<le> tol"
  shows "snd (recognize_face face_encodings metric slf img tol) =
           Inr (Some (parse_full_name (known_names slf ! k)))"
proof -
  let ?ds = "face_distance metric (known_faces slf) q"
  have ne: "known_faces slf \<noteq> []" using assms(3) by auto
  then have ds: "?ds = map (\<lambda>known. metric known q) (known_faces slf)"
    by (simp add: face_distance_def)
  then have "?ds \<noteq> []" using ne by simp
  then obtain k' where k': "argmin ?ds = Inr k'"
    using argmin_empty_iff[of ?ds] by (cases "argmin ?ds") auto
  note fm = argmin_first_min[OF k']
  have len: "length ?ds = length (known_faces slf)" using ds by simp
  have "k = k'"
  proof (rule first_min_unique[of k ?ds k'])
    show "k < length ?ds" using assms(3) len by simp
    show "\<forall>j<length ?ds. ?ds ! k \<le> ?ds ! j" using assms(3,4) ds by simp
    show "\<forall>j<k. ?ds ! k < ?ds ! j" using assms(3,5) ds by simp
    show "k' < length ?ds" using fm by simp
    show "\<forall>j<length ?ds. ?ds ! k' \<le> ?ds ! j" using fm by simp
    show "\<forall>j<k'. ?ds ! k' < ?ds ! j" using fm by simp
  qed
  moreover have "?ds ! k \<le> tol" using assms(3,6) ds by simp
  ultimately show ?thesis using assms(1,2,3) k'
    by (simp add: recognize_face_result)
qed

theorem earliest_minimum_is_selected_witness:
  "length [5::real, 1, 3, 1] = length [''Eve_5'', ''Ann_1'', ''Bob_2'', ''Cid_3''] \<and>
   \<bar>1 - 2 :: real\<bar> = \<bar>3 - 2\<bar> \<and> \<bar>1 - 2 :: real\<bar> \<le> 1 \<and>
   snd (recognize_face (\<lambda>i. i) (\<lambda>a b. \<bar>a - b\<bar>)
       \<lparr>known_faces_dir = ''known_faces'', attendance_file = ''attendance.xlsx'',
        known_faces = [5::real, 1, 3, 1],
        known_names = [''Eve_5'', ''Ann_1'', ''Bob_2'', ''Cid_3'']\<rparr> [2] 1)
     = Inr (Some (''Ann'', ''1''))"
proof -
  let ?g = "\<lparr>known_faces_dir = ''known_faces'', attendance_file = ''attendance.xlsx'',
        known_faces = [5::real, 1, 3, 1],
        known_names = [''Eve_5'', ''Ann_1'', ''Bob_2'', ''Cid_3'']\<rparr>"
  let ?m = "\<lambda>a b :: real. \<bar>a - b\<bar>"
  have q: "(\<lambda>i::real list. i) [2] = 2 # []" by simp
  have len: "length (known_faces ?g) = length (known_names ?g)" by simp
  have k: "(1::nat) < length (known_faces ?g)" by simp
  have least: "\<forall>j<length (known_faces ?g). ?m (known_faces ?g ! 1) 2 \<le> ?m (known_faces ?g ! j) 2"
    by (simp add: nth_Cons' less_Suc_eq numeral_eq_Suc)
  have first: "\<forall>j<1. ?m (known_faces ?g ! 1) 2 < ?m (known_faces ?g ! j) 2"
    by simp
  have within: "?m (known_faces ?g ! 1) 2 \<le> 1" by simp
  show ?thesis
    using earliest_minimum_is_selected[where face_encodings = "\<lambda>i. i" and img = "[2]"
        and q = 2 and others = "[]" and slf = ?g and metric = ?m and k = 1 and tol = 1,
        OF q len k least first within]
    by (simp add: parse_full_name_def split_first_def)
qed

text \<open>
  Claim C4, as amended. When the image holds more than one face, \<open>recognize_face\<close> prints
  a warning with the number of faces and goes on with the first encoding: the rest of
  the console output and the returned value are those of the first face alone.
\<close>

theorem several_faces_use_the_first:
  assumes "face_encodings img = q # q' # others"
  shows "recognize_face face_encodings metric slf img tol =
           (MultipleFacesWarning (length (q # q' # others)) #
              fst (recognize_face (\<lambda>i. [q]) metric slf img tol),
            snd (recognize_face (\<lambda>i. [q]) metric slf img tol))"
  using assms
  by (simp add: recognize_face_def Let_def split: sum.splits)

theorem several_faces_use_the_first_witness:
  "recognize_face (\<lambda>i. i) (\<lambda>a b. \<bar>a - b\<bar>)
       \<lparr>known_faces_dir = ''known_faces'', attendance_file = ''attendance.xlsx'',
        known_faces = [0::real], known_names = [''JohnDoe_101'']\<rparr> [0, 5] (6 / 10) =
     ([MultipleFacesWarning 2, FaceRecognized ''JohnDoe'' ''101'' 1],
      Inr (Some (''JohnDoe'', ''101'')))"
proof -
  have q: "(\<lambda>i::real list. i) [0, 5] = 0 # 5 # []" by simp
  show ?thesis
    using several_faces_use_the_first[where face_encodings = "\<lambda>i. i" and img = "[0, 5]"
        and q = 0 and q' = 5 and others = "[]" and metric = "\<lambda>a b. \<bar>a - b\<bar>"
        and slf = "\<lparr>known_faces_dir = ''known_faces'', attendance_file = ''attendance.xlsx'',
             known_faces = [0::real], known_names = [''JohnDoe_101'']\<rparr>"
        and tol = "6 / 10", OF q]
    by (simp add: recognize_face_def face_distance_def compare_faces_def argmin_def
        parse_full_name_def split_first_def)
qed

theorem several_faces_not_ambiguous_counterexample:
  "length ((\<lambda>i::real list. i) [0, 5]) > 1 \<and>
   snd (recognize_face (\<lambda>i. i) (\<lambda>a b. \<bar>a - b\<bar>)
       \<lparr>known_faces_dir = ''known_faces'', attendance_file = ''attendance.xlsx'',
        known_faces = [0::real], known_names = [''JohnDoe_101'']\<rparr> [0, 5] (6 / 10)) =
     Inr (Some (''JohnDoe'', ''101''))"
  by (simp add: recognize_face_def face_distance_def compare_faces_def argmin_def
        parse_full_name_def split_first_def)

section \<open>Properties of the ledger\<close>

subsection \<open>What the type inference does to the duplicate check\<close>

text \<open>
  A column read as numbers holds no text, so it matches no roll number; a roll number
  read as a number or as missing is therefore marked again on the same day. A roll
  number and a date that the reader keeps as texts are found exactly when a row of the
  file holds both.
\<close>

lemma to_numeric_never_text:
  assumes "is_numeric rd c"
  shows "to_numeric rd c \<noteq> Text s"
  using assms by (cases c) (auto simp: is_numeric_def to_numeric_def split: option.splits)

lemma length_infer_column: "length (infer_column rd col) = length col"
  by (simp add: infer_column_def Let_def)

lemma Roll_No_infer_types:
  "map Roll_No (infer_types rd rows) = infer_column rd (map Roll_No rows)"
proof -
  have "map Roll_No (infer_types rd rows) =
          map fst (zip (infer_column rd (map Roll_No rows))
            (zip (infer_column rd (map Name rows))
              (zip (infer_column rd (map Date rows)) (infer_column rd (map Time rows)))))"
    by (simp add: infer_types_def case_prod_unfold comp_def)
  also have "\<dots> = infer_column rd (map Roll_No rows)"
    by (rule map_fst_zip) (simp add: length_infer_column)
  finally show ?thesis .
qed

lemma retyped_column_never_matches:
  assumes "files (attendance_file slf) = Some (Workbook rows)"
    and "list_all (is_numeric rd) (map (sanitize rd) (map Roll_No rows))"
  shows "check_duplicate_attendance rd files slf roll_no date_str = Inr False"
proof -
  have col: "map Roll_No (infer_types rd rows) =
               map (to_numeric rd) (map (sanitize rd) (map Roll_No rows))"
    using assms(2) by (simp add: Roll_No_infer_types infer_column_def Let_def)
  have "Roll_No r \<noteq> Text roll_no" if "r \<in> set (infer_types rd rows)" for r
  proof -
    from that have "Roll_No r \<in> set (map Roll_No (infer_types rd rows))" by simp
    then obtain c where c: "c \<in> set (map (sanitize rd) (map Roll_No rows))"
      and r: "Roll_No r = to_numeric rd c"
      unfolding col by auto
    from assms(2) c have "is_numeric rd c" by (auto simp: list_all_iff)
    then show ?thesis unfolding r by (rule to_numeric_never_text)
  qed
  then have "filter (\<lambda>r. Roll_No r = Text roll_no \<and> Date r = Text date_str)
               (infer_types rd rows) = []"
    by (auto simp: filter_empty_conv)
  then show ?thesis
    using assms(1) by (simp add: check_duplicate_attendance_def read_excel_def)
qed

lemma retyped_roll_number_is_marked_again:
  assumes "files (attendance_file slf) = None"
    and "is_numeric rd (sanitize rd (Text roll_no))"
  shows "snd (snd (mark_attendance rd now1 files slf student_name roll_no)) = Inr True \<and>
         snd (snd (mark_attendance rd now2
                (fst (mark_attendance rd now1 files slf student_name roll_no))
                slf student_name roll_no)) = Inr True"
proof -
  let ?new = "\<lparr>Roll_No = Text roll_no, Name = Text student_name,
               Date = Text (strftime_date now1), Time = Text (strftime_time now1)\<rparr>"
  let ?files1 = "files(attendance_file slf \<mapsto> Workbook [?new])"
  have 1: "mark_attendance rd now1 files slf student_name roll_no =
             (?files1, [AttendanceMarked student_name roll_no (strftime_time now1)], Inr True)"
    using assms(1)
    by (simp add: mark_attendance_def check_duplicate_attendance_def read_excel_def
        to_excel_def Let_def)
  have f1: "?files1 (attendance_file slf) = Some (Workbook [?new])" by simp
  have n1: "list_all (is_numeric rd) (map (sanitize rd) (map Roll_No [?new]))"
    using assms(2) by simp
  have "check_duplicate_attendance rd ?files1 slf roll_no (strftime_date now2) = Inr False"
    by (rule retyped_column_never_matches[where files = ?files1 and slf = slf
          and rows = "[?new]" and rd = rd, OF f1 n1])
  then have 2: "snd (snd (mark_attendance rd now2 ?files1 slf student_name roll_no)) = Inr True"
    by (simp add: mark_attendance_def read_excel_def to_excel_def Let_def)
  from 1 2 show ?thesis by simp
qed


lemma length_infer_types: "length (infer_types rd rows) = length rows"
  by (simp add: infer_types_def length_infer_column)

lemma nth_infer_types:
  assumes "i < length rows"
  shows "infer_types rd rows ! i =
           \<lparr>Roll_No = infer_column rd (map Roll_No rows) ! i,
            Name = infer_column rd (map Name rows) ! i,
            Date = infer_column rd (map Date rows) ! i,
            Time = infer_column rd (map Time rows) ! i\<rparr>"
  using assms by (simp add: infer_types_def length_infer_column)

lemma sanitize_kept_text:
  assumes "s \<notin> set (na_values rd)"
  shows "sanitize rd c = Text s \<longleftrightarrow> c = Text s"
  using assms by (cases c) (auto simp: sanitize_def)

lemma infer_column_kept_text:
  assumes "numeric rd s = None" and "s \<notin> set (na_values rd)" and "i < length col"
  shows "infer_column rd col ! i = Text s \<longleftrightarrow> col ! i = Text s"
proof (cases "list_all (is_numeric rd) (map (sanitize rd) col)")
  case True
  with assms(3) have num: "is_numeric rd (sanitize rd (col ! i))"
    by (simp add: list_all_iff)
  then have "to_numeric rd (sanitize rd (col ! i)) \<noteq> Text s"
    by (rule to_numeric_never_text)
  moreover have "col ! i \<noteq> Text s"
  proof
    assume "col ! i = Text s"
    then have "sanitize rd (col ! i) = Text s"
      using assms(2) by (simp add: sanitize_kept_text)
    with num assms(1) show False by (simp add: is_numeric_def)
  qed
  ultimately show ?thesis using True assms(3) by (simp add: infer_column_def Let_def)
next
  case False
  then show ?thesis
    using assms(2,3) by (simp add: infer_column_def Let_def sanitize_kept_text)
qed

lemma kept_text_is_found:
  assumes "files (attendance_file slf) = Some (Workbook rows)"
    and "numeric rd roll_no = None" and "roll_no \<notin> set (na_values rd)"
    and "numeric rd date_str = None" and "date_str \<notin> set (na_values rd)"
  shows "check_duplicate_attendance rd files slf roll_no date_str =
           Inr (\<exists>r\<in>set rows. Roll_No r = Text roll_no \<and> Date r = Text date_str)"
proof -
  let ?df = "infer_types rd rows"
  have at: "(Roll_No (?df ! i) = Text roll_no \<and> Date (?df ! i) = Text date_str) =
            (Roll_No (rows ! i) = Text roll_no \<and> Date (rows ! i) = Text date_str)"
    if "i < length rows" for i
    using that infer_column_kept_text[OF assms(2,3), of i "map Roll_No rows"]
      infer_column_kept_text[OF assms(4,5), of i "map Date rows"]
    by (simp add: nth_infer_types)
  have "(filter (\<lambda>r. Roll_No r = Text roll_no \<and> Date r = Text date_str) ?df \<noteq> []) =
        (\<exists>i<length rows. Roll_No (?df ! i) = Text roll_no \<and> Date (?df ! i) = Text date_str)"
  proof
    assume "filter (\<lambda>r. Roll_No r = Text roll_no \<and> Date r = Text date_str) ?df \<noteq> []"
    then obtain r where "r \<in> set ?df" "Roll_No r = Text roll_no \<and> Date r = Text date_str"
      by (auto simp: filter_empty_conv)
    then show "\<exists>i<length rows. Roll_No (?df ! i) = Text roll_no \<and>
                               Date (?df ! i) = Text date_str"
      by (auto simp: in_set_conv_nth length_infer_types)
  next
    assume "\<exists>i<length rows. Roll_No (?df ! i) = Text roll_no \<and> Date (?df ! i) = Text date_str"
    then obtain i where "i < length ?df"
      "Roll_No (?df ! i) = Text roll_no \<and> Date (?df ! i) = Text date_str"
      by (auto simp: length_infer_types)
    then have "\<exists>r\<in>set ?df. Roll_No r = Text roll_no \<and> Date r = Text date_str"
      using nth_mem by blast
    then show "filter (\<lambda>r. Roll_No r = Text roll_no \<and> Date r = Text date_str) ?df \<noteq> []"
      by (simp add: filter_empty_conv)
  qed
  also have "\<dots> = (\<exists>i<length rows. Roll_No (rows ! i) = Text roll_no \<and>
                                   Date (rows ! i) = Text date_str)"
    using at by blast
  also have "\<dots> = (\<exists>r\<in>set rows. Roll_No r = Text roll_no \<and> Date r = Text date_str)"
    by (metis in_set_conv_nth)
  finally show ?thesis
    using assms(1) by (simp add: check_duplicate_attendance_def read_excel_def)
qed

subsection \<open>The ledger on concrete sheets\<close>

lemmas ledger_eval =
  mark_attendance_def check_duplicate_attendance_def read_excel_def to_excel_def
  infer_types_def infer_column_def sanitize_def is_numeric_def to_numeric_def
  default_reader_def default_na_values_def decimal_def digit_value_def
  strftime_date_def strftime_time_def pad2_def pad4_def digit_def Let_def

text \<open>
  Claim C8 does not hold of the code. The first call of \<open>mark_attendance\<close> for roll
  number \<open>101\<close> writes a row whose roll number is the text \<open>101\<close>; \<open>pd.read_excel\<close>
  gives that cell back as the number 101, and \<open>check_duplicate_attendance\<close> for the
  same roll number and date returns \<open>False\<close> although the row is in the file.
\<close>

theorem duplicate_check_misses_numeric_roll_number:
  "mark_attendance default_reader
     \<lparr>year = 2026, month = 11, day = 3, hour = 9, minute = 5, second = 0\<rparr> Map.empty
     \<lparr>known_faces_dir = ''known_faces'', attendance_file = ''attendance.xlsx'',
      known_faces = [0::real], known_names = [''JohnDoe_101'']\<rparr> ''JohnDoe'' ''101'' =
     ([''attendance.xlsx'' \<mapsto>
         Workbook [\<lparr>Roll_No = Text ''101'', Name = Text ''JohnDoe'',
                    Date = Text ''2026-11-03'', Time = Text ''09:05:00''\<rparr>]],
      [AttendanceMarked ''JohnDoe'' ''101'' ''09:05:00''], Inr True) \<and>
   read_excel default_reader
     [''attendance.xlsx'' \<mapsto>
         Workbook [\<lparr>Roll_No = Text ''101'', Name = Text ''JohnDoe'',
                    Date = Text ''2026-11-03'', Time = Text ''09:05:00''\<rparr>]]
     ''attendance.xlsx'' =
     Inr [\<lparr>Roll_No = Number 101, Name = Text ''JohnDoe'',
           Date = Text ''2026-11-03'', Time = Text ''09:05:00''\<rparr>] \<and>
   check_duplicate_attendance default_reader
     [''attendance.xlsx'' \<mapsto>
         Workbook [\<lparr>Roll_No = Text ''101'', Name = Text ''JohnDoe'',
                    Date = Text ''2026-11-03'', Time = Text ''09:05:00''\<rparr>]]
     \<lparr>known_faces_dir = ''known_faces'', attendance_file = ''attendance.xlsx'',
      known_faces = [0::real], known_names = [''JohnDoe_101'']\<rparr> ''101'' ''2026-11-03'' =
     Inr False"
  by (simp add: ledger_eval)


text \<open>
  Claim C2 does not hold of the code. For roll number \<open>101\<close> and two clock readings of
  the same day, both calls of \<open>mark_attendance\<close> return \<open>True\<close>, and the file ends with
  two rows for that roll number and date (the first written back as a number).
\<close>

theorem second_mark_same_day_is_marked_again:
  "mark_attendance default_reader
     \<lparr>year = 2026, month = 11, day = 3, hour = 9, minute = 5, second = 0\<rparr> Map.empty
     \<lparr>known_faces_dir = ''known_faces'', attendance_file = ''attendance.xlsx'',
      known_faces = [0::real], known_names = [''JohnDoe_101'']\<rparr> ''JohnDoe'' ''101'' =
     ([''attendance.xlsx'' \<mapsto>
         Workbook [\<lparr>Roll_No = Text ''101'', Name = Text ''JohnDoe'',
                    Date = Text ''2026-11-03'', Time = Text ''09:05:00''\<rparr>]],
      [AttendanceMarked ''JohnDoe'' ''101'' ''09:05:00''], Inr True) \<and>
   mark_attendance default_reader
     \<lparr>year = 2026, month = 11, day = 3, hour = 17, minute = 30, second = 12\<rparr>
     [''attendance.xlsx'' \<mapsto>
         Workbook [\<lparr>Roll_No = Text ''101'', Name = Text ''JohnDoe'',
                    Date = Text ''2026-11-03'', Time = Text ''09:05:00''\<rparr>]]
     \<lparr>known_faces_dir = ''known_faces'', attendance_file = ''attendance.xlsx'',
      known_faces = [0::real], known_names = [''JohnDoe_101'']\<rparr> ''JohnDoe'' ''101'' =
     ([''attendance.xlsx'' \<mapsto>
         Workbook [\<lparr>Roll_No = Number 101, Name = Text ''JohnDoe'',
                    Date = Text ''2026-11-03'', Time = Text ''09:05:00''\<rparr>,
                   \<lparr>Roll_No = Text ''101'', Name = Text ''JohnDoe'',
                    Date = Text ''2026-11-03'', Time = Text ''17:30:12''\<rparr>]],
      [AttendanceMarked ''JohnDoe'' ''101'' ''17:30:12''], Inr True)"
  by (simp add: ledger_eval)

text \<open>
  Claim C6 does not hold of the code. Marking roll number \<open>101\<close> writes the earlier row
  of roll number \<open>007\<close> back with the number 7 in its place, and an earlier row with the
  sentinel \<open>N/A\<close> back with an empty cell: the rows of other identities are not kept as
  they were.
\<close>

theorem mark_rewrites_rows_of_other_identities:
  "mark_attendance default_reader
     \<lparr>year = 2026, month = 11, day = 3, hour = 8, minute = 59, second = 10\<rparr> Map.empty
     \<lparr>known_faces_dir = ''known_faces'', attendance_file = ''attendance.xlsx'',
      known_faces = [0::real], known_names = [''JohnDoe_101'']\<rparr> ''Ann'' ''007'' =
     ([''attendance.xlsx'' \<mapsto>
         Workbook [\<lparr>Roll_No = Text ''007'', Name = Text ''Ann'',
                    Date = Text ''2026-11-03'', Time = Text ''08:59:10''\<rparr>]],
      [AttendanceMarked ''Ann'' ''007'' ''08:59:10''], Inr True) \<and>
   mark_attendance default_reader
     \<lparr>year = 2026, month = 11, day = 3, hour = 9, minute = 5, second = 0\<rparr>
     [''attendance.xlsx'' \<mapsto>
         Workbook [\<lparr>Roll_No = Text ''007'', Name = Text ''Ann'',
                    Date = Text ''2026-11-03'', Time = Text ''08:59:10''\<rparr>]]
     \<lparr>known_faces_dir = ''known_faces'', attendance_file = ''attendance.xlsx'',
      known_faces = [0::real], known_names = [''JohnDoe_101'']\<rparr> ''JohnDoe'' ''101'' =
     ([''attendance.xlsx'' \<mapsto>
         Workbook [\<lparr>Roll_No = Number 7, Name = Text ''Ann'',
                    Date = Text ''2026-11-03'', Time = Text ''08:59:10''\<rparr>,
                   \<lparr>Roll_No = Text ''101'', Name = Text ''JohnDoe'',
                    Date = Text ''2026-11-03'', Time = Text ''09:05:00''\<rparr>]],
      [AttendanceMarked ''JohnDoe'' ''101'' ''09:05:00''], Inr True) \<and>
   mark_attendance default_reader
     \<lparr>year = 2026, month = 11, day = 3, hour = 9, minute = 5, second = 0\<rparr>
     [''attendance.xlsx'' \<mapsto>
         Workbook [\<lparr>Roll_No = Text ''N/A'', Name = Text ''JaneSmith'',
                    Date = Text ''2026-11-03'', Time = Text ''08:59:10''\<rparr>]]
     \<lparr>known_faces_dir = ''known_faces'', attendance_file = ''attendance.xlsx'',
      known_faces = [0::real], known_names = [''JohnDoe_101'']\<rparr> ''JohnDoe'' ''101'' =
     ([''attendance.xlsx'' \<mapsto>
         Workbook [\<lparr>Roll_No = Blank, Name = Text ''JaneSmith'',
                    Date = Text ''2026-11-03'', Time = Text ''08:59:10''\<rparr>,
                   \<lparr>Roll_No = Text ''101'', Name = Text ''JohnDoe'',
                    Date = Text ''2026-11-03'', Time = Text ''09:05:00''\<rparr>]],
      [AttendanceMarked ''JohnDoe'' ''101'' ''09:05:00''], Inr True)"
  by (simp add: ledger_eval)

text \<open>
  A roll number that is no number is found, a missing file gives \<open>False\<close>, and a file that
  is no workbook makes the check fail.
\<close>

lemma ledger_examples:
  "check_duplicate_attendance default_reader
     [''attendance.xlsx'' \<mapsto>
         Workbook [\<lparr>Roll_No = Text ''CS101'', Name = Text ''JohnDoe'',
                    Date = Text ''2026-11-03'', Time = Text ''09:05:00''\<rparr>]]
     \<lparr>known_faces_dir = ''known_faces'', attendance_file = ''attendance.xlsx'',
      known_faces = [0::real], known_names = [''JohnDoe_101'']\<rparr> ''CS101'' ''2026-11-03'' =
     Inr True"
  "check_duplicate_attendance default_reader Map.empty
     \<lparr>known_faces_dir = ''known_faces'', attendance_file = ''attendance.xlsx'',
      known_faces = [0::real], known_names = [''JohnDoe_101'']\<rparr> ''CS101'' ''2026-11-03'' =
     Inr False"
  "check_duplicate_attendance default_reader [''attendance.xlsx'' \<mapsto> Unreadable]
     \<lparr>known_faces_dir = ''known_faces'', attendance_file = ''attendance.xlsx'',
      known_faces = [0::real], known_names = [''JohnDoe_101'']\<rparr> ''CS101'' ''2026-11-03'' =
     Inl (ValueError ''Excel file format cannot be determined'')"
  by (simp_all add: ledger_eval)

section \<open>Properties of the labels\<close>

lemma split_first_append:
  assumes "sep \<notin> set a"
  shows "split_first sep (a @ sep # b) = (a, b)"
proof -
  have ne: "x \<noteq> sep" if "x \<in> set a" for x using that assms by auto
  have "takeWhile (\<lambda>c. c \<noteq> sep) (a @ sep # b) = a"
    using ne by (induction a) auto
  moreover have "dropWhile (\<lambda>c. c \<noteq> sep) (a @ sep # b) = sep # b"
    using ne by (induction a) auto
  ultimately show ?thesis by (simp add: split_first_def)
qed


text \<open>
  Claim C3, as amended. A label with no underscore gives the whole label as name and
  the sentinel \<open>N/A\<close> as roll number; a label \<open>name_roll\<close> whose part \<open>name\<close> has no
  underscore gives \<open>name\<close> and \<open>roll\<close>, whatever underscores \<open>roll\<close> holds.
\<close>

theorem label_splits_at_first_underscore:
  "(CHR ''_'' \<notin> set label \<longrightarrow> parse_full_name label = (label, ''N/A'')) \<and>
   (\<forall>name roll_no. label = name @ ''_'' @ roll_no \<and> CHR ''_'' \<notin> set name \<longrightarrow>
      parse_full_name label = (name, roll_no))"
  by (auto simp: parse_full_name_def split_first_append)

theorem label_splits_at_first_underscore_witness:
  "CHR ''_'' \<notin> set ''JaneSmith'' \<and>
   parse_full_name ''JaneSmith'' = (''JaneSmith'', ''N/A'') \<and>
   ''John_Doe_101'' = ''John'' @ ''_'' @ ''Doe_101'' \<and> CHR ''_'' \<notin> set ''John'' \<and>
   parse_full_name ''John_Doe_101'' = (''John'', ''Doe_101'')"
proof -
  have a: "CHR ''_'' \<notin> set ''JaneSmith''" by simp
  have b: "''John_Doe_101'' = ''John'' @ ''_'' @ ''Doe_101'' \<and> CHR ''_'' \<notin> set ''John''" by simp
  from label_splits_at_first_underscore[of "''JaneSmith''"] a
  have 1: "parse_full_name ''JaneSmith'' = (''JaneSmith'', ''N/A'')" by blast
  from label_splits_at_first_underscore[of "''John_Doe_101''"] b
  have 2: "parse_full_name ''John_Doe_101'' = (''John'', ''Doe_101'')" by blast
  from a b 1 2 show ?thesis by blast
qed

theorem sentinel_is_not_unknown_counterexample:
  "CHR ''_'' \<notin> set ''JaneSmith'' \<and>
   parse_full_name ''JaneSmith'' \<noteq> (''JaneSmith'', ''unknown'')"
  by (simp add: parse_full_name_def)




section \<open>Properties of the gallery load\<close>

text \<open>Every object that \<open>__init__\<close> returns has as many names as encodings.\<close>

lemma load_entry_aligned:
  assumes "length (known_faces (self st)) = length (known_names (self st))"
  shows "length (known_faces (self (load_entry load_and_encode filename st))) =
         length (known_names (self (load_entry load_and_encode filename st)))"
  using assms by (simp add: load_entry_def Let_def split: sum.splits)

lemma fold_load_entry_aligned:
  assumes "length (known_faces (self st)) = length (known_names (self st))"
  shows "length (known_faces (self (fold (load_entry load_and_encode) listing st))) =
         length (known_names (self (fold (load_entry load_and_encode) listing st)))"
  using assms
proof (induction listing arbitrary: st)
  case Nil
  then show ?case by simp
next
  case (Cons filename listing)
  from Cons.prems have "length (known_faces (self (load_entry load_and_encode filename st))) =
         length (known_names (self (load_entry load_and_encode filename st)))"
    by (rule load_entry_aligned)
  then show ?case by (simp add: Cons.IH)
qed

lemma init_gallery_aligned:
  assumes "init load_and_encode disk dir file = Inr st"
  shows "length (known_faces (self st)) = length (known_names (self st))"
proof -
  obtain listing where "disk dir = Directory listing"
    using assms by (cases "disk dir") (simp_all add: init_def load_known_faces_def)
  with assms have st: "st = (fold (load_entry load_and_encode) listing
        \<lparr>self = \<lparr>known_faces_dir = dir, attendance_file = file, known_faces = [],
                  known_names = []\<rparr>,
         console = [LoadingKnownFaces, ExpectedFilenameFormat], encoded = []\<rparr>)
        \<lparr>console := console (fold (load_entry load_and_encode) listing
        \<lparr>self = \<lparr>known_faces_dir = dir, attendance_file = file, known_faces = [],
                  known_names = []\<rparr>,
         console = [LoadingKnownFaces, ExpectedFilenameFormat], encoded = []\<rparr>) @
          [TotalFacesLoaded (length (known_faces (self (fold (load_entry load_and_encode) listing
        \<lparr>self = \<lparr>known_faces_dir = dir, attendance_file = file, known_faces = [],
                  known_names = []\<rparr>,
         console = [LoadingKnownFaces, ExpectedFilenameFormat], encoded = []\<rparr>))))]\<rparr>"
    by (simp add: init_def load_known_faces_def Let_def)
  have "length (known_faces (self (fold (load_entry load_and_encode) listing
        \<lparr>self = \<lparr>known_faces_dir = dir, attendance_file = file, known_faces = [],
                  known_names = []\<rparr>,
         console = [LoadingKnownFaces, ExpectedFilenameFormat], encoded = []\<rparr>))) =
      length (known_names (self (fold (load_entry load_and_encode) listing
        \<lparr>self = \<lparr>known_faces_dir = dir, attendance_file = file, known_faces = [],
                  known_names = []\<rparr>,
         console = [LoadingKnownFaces, ExpectedFilenameFormat], encoded = []\<rparr>)))"
    by (rule fold_load_entry_aligned) simp
  then show ?thesis by (subst st, subst st) simp
qed

lemma has_valid_extension_iff:
  "has_valid_extension filename =
     (endswith (lower filename) ''.jpg'' \<or> endswith (lower filename) ''.jpeg'' \<or>
      endswith (lower filename) ''.png'')"
  by (simp add: has_valid_extension_def valid_extensions_def)

text \<open>
  Claim C10. A directory entry whose lowercased name ends in none of \<open>.jpg\<close>, \<open>.jpeg\<close>
  and \<open>.png\<close> leaves the loop body without any effect: the gallery, the console and the
  list of paths handed to the image loader are unchanged. The whole load is the same
  as the load of the directory without that entry.
\<close>

theorem entry_without_image_extension_is_skipped:
  assumes "\<not> endswith (lower filename) ''.jpg''"
    and "\<not> endswith (lower filename) ''.jpeg''"
    and "\<not> endswith (lower filename) ''.png''"
  shows "load_entry load_and_encode filename st = st \<and>
         (\<forall>before after.
            disk (known_faces_dir slf) = Directory (before @ filename # after) \<longrightarrow>
            load_known_faces load_and_encode disk slf =
            load_known_faces load_and_encode
              (disk(known_faces_dir slf := Directory (before @ after))) slf)"
proof -
  have skip: "load_entry load_and_encode filename s = s" for s :: "'a loading"
    using assms by (simp add: load_entry_def has_valid_extension_iff)
  then show ?thesis by (simp add: load_known_faces_def)
qed


theorem entry_without_image_extension_is_skipped_witness:
  "\<not> endswith (lower ''notes.txt'') ''.jpg'' \<and>
   \<not> endswith (lower ''notes.txt'') ''.jpeg'' \<and>
   \<not> endswith (lower ''notes.txt'') ''.png'' \<and>
   load_known_faces
     (\<lambda>path. if path = ''known_faces/JohnDoe_101.jpg'' then Inr [0::real]
             else if path = ''known_faces/Ann_7.PNG'' then Inr []
             else Inl ''cannot identify image file'')
     (\<lambda>path. if path = ''known_faces''
             then Directory [''JohnDoe_101.jpg'', ''notes.txt'', ''Ann_7.PNG'']
             else Absent)
     \<lparr>known_faces_dir = ''known_faces'', attendance_file = ''attendance.xlsx'',
      known_faces = [], known_names = []\<rparr> =
   Inr \<lparr>self = \<lparr>known_faces_dir = ''known_faces'', attendance_file = ''attendance.xlsx'',
                 known_faces = [0], known_names = [''JohnDoe_101'']\<rparr>,
        console = [LoadingKnownFaces, ExpectedFilenameFormat, Loaded ''JohnDoe_101'',
                   NoFaceDetectedIn ''Ann_7.PNG'', TotalFacesLoaded 1],
        encoded = [''known_faces/JohnDoe_101.jpg'', ''known_faces/Ann_7.PNG'']\<rparr>"
proof -
  let ?enc = "\<lambda>path. if path = ''known_faces/JohnDoe_101.jpg'' then Inr [0::real]
             else if path = ''known_faces/Ann_7.PNG'' then Inr []
             else Inl ''cannot identify image file''"
  let ?disk = "\<lambda>path. if path = ''known_faces''
             then Directory [''JohnDoe_101.jpg'', ''notes.txt'', ''Ann_7.PNG'']
             else Absent"
  let ?slf = "\<lparr>known_faces_dir = ''known_faces'', attendance_file = ''attendance.xlsx'',
      known_faces = [] :: real list, known_names = []\<rparr>"
  have a: "\<not> endswith (lower ''notes.txt'') ''.jpg''"
    by (simp add: endswith_def lower_def lower_char_def)
  have b: "\<not> endswith (lower ''notes.txt'') ''.jpeg''"
    by (simp add: endswith_def lower_def lower_char_def)
  have c: "\<not> endswith (lower ''notes.txt'') ''.png''"
    by (simp add: endswith_def lower_def lower_char_def)
  have d: "?disk (known_faces_dir ?slf) =
             Directory ([''JohnDoe_101.jpg''] @ ''notes.txt'' # [''Ann_7.PNG''])"
    by simp
  from entry_without_image_extension_is_skipped[OF a b c, of ?enc _ ?disk ?slf] d
  have "load_known_faces ?enc ?disk ?slf =
        load_known_faces ?enc
          (?disk(known_faces_dir ?slf := Directory ([''JohnDoe_101.jpg''] @ [''Ann_7.PNG''])))
          ?slf"
    by blast
  also have "\<dots> = Inr \<lparr>self = \<lparr>known_faces_dir = ''known_faces'',
                 attendance_file = ''attendance.xlsx'',
                 known_faces = [0], known_names = [''JohnDoe_101'']\<rparr>,
        console = [LoadingKnownFaces, ExpectedFilenameFormat, Loaded ''JohnDoe_101'',
                   NoFaceDetectedIn ''Ann_7.PNG'', TotalFacesLoaded 1],
        encoded = [''known_faces/JohnDoe_101.jpg'', ''known_faces/Ann_7.PNG'']\<rparr>"
    by (simp add: load_known_faces_def load_entry_def has_valid_extension_def
        valid_extensions_def endswith_def lower_def lower_char_def path_join_def
        splitext_def rfind_def Let_def)
  finally show ?thesis using a b c by simp
qed

end
